theory Spec2Isabelle
  imports Main
begin

section \<open>JavaScript strings and arrays\<close>

text \<open>
  A JavaScript string is modelled as a \<^typ>\<open>string\<close>: one \<^typ>\<open>char\<close> per code unit, which covers
  the code units below 256 (all of ASCII, the escape character 0x1B, the one-byte CSI 0x9B and
  the bell 0x07). Reading past the end of a string or an array gives \<open>undefined\<close>, modelled
  as \<^const>\<open>None\<close>.
\<close>

definition char_at :: "string \<Rightarrow> nat \<Rightarrow> char option" where
  "char_at s i = (if i < length s then Some (s ! i) else None)"

text \<open>\<open>s.indexOf(needle)\<close>: the first position where \<open>needle\<close> starts, or \<open>-1\<close>.\<close>

fun indexOf_from :: "nat \<Rightarrow> string \<Rightarrow> string \<Rightarrow> int" where
  "indexOf_from p [] needle = (if needle = [] then int p else - 1)"
| "indexOf_from p (c # cs) needle =
     (if take (length needle) (c # cs) = needle then int p else indexOf_from (Suc p) cs needle)"

definition indexOf :: "string \<Rightarrow> string \<Rightarrow> int" where
  "indexOf s needle = indexOf_from 0 s needle"

text \<open>\<open>s.slice(start, end)\<close> and \<open>s.slice(start)\<close>: a negative bound counts from the end.\<close>

definition slice_bound :: "string \<Rightarrow> int \<Rightarrow> nat" where
  "slice_bound s k = (if k < 0 then nat (max (int (length s) + k) 0) else min (nat k) (length s))"

definition slice :: "string \<Rightarrow> int \<Rightarrow> int \<Rightarrow> string" where
  "slice s a b = take (slice_bound s b - slice_bound s a) (drop (slice_bound s a) s)"

definition slice_from :: "string \<Rightarrow> int \<Rightarrow> string" where
  "slice_from s a = drop (slice_bound s a) s"

text \<open>\<open>s.substring(a, b)\<close>: bounds are clamped to the string and swapped when \<open>a > b\<close>.\<close>

definition substring :: "string \<Rightarrow> int \<Rightarrow> int \<Rightarrow> string" where
  "substring s a b =
     (let a' = min (nat (max a 0)) (length s); b' = min (nat (max b 0)) (length s)
      in take (max a' b' - min a' b') (drop (min a' b') s))"

text \<open>String concatenation converts \<open>undefined\<close> to the text \<open>undefined\<close>.\<close>

definition str_of :: "string option \<Rightarrow> string" where
  "str_of v = (case v of None \<Rightarrow> ''undefined'' | Some s \<Rightarrow> s)"

text \<open>A string is truthy when it is defined and not empty.\<close>

definition truthy :: "string option \<Rightarrow> bool" where
  "truthy v = (case v of None \<Rightarrow> False | Some s \<Rightarrow> s \<noteq> [])"

text \<open>\<open>String.prototype.trim\<close>: the white space and line terminators among the code units below 256.\<close>

definition is_space :: "char \<Rightarrow> bool" where
  "is_space c = (c \<in> set [CHR 0x09, CHR 0x0A, CHR 0x0B, CHR 0x0C, CHR 0x0D, CHR 0x20, CHR 0xA0])"

definition trim :: "string \<Rightarrow> string" where
  "trim s = rev (dropWhile is_space (rev (dropWhile is_space s)))"

section \<open>The packages ansi-regex and strip-ansi\<close>

text \<open>
  \<open>ChangeAlgorithm.ts\<close> finds the style sequences of a string with the regular expression of
  the package \<open>ansi-regex\<close> (version 4.1.0 in \<open>package.json\<close>), whose pattern is
  \<^verbatim>\<open>[\u001B\u009B][[\]()#;?]*(?:(?:(?:[a-zA-Z\d]*(?:;[-a-zA-Z\d\/#&.:=?%@~_]*)*)?\u0007)|(?:(?:\d{1,4}(?:;\d{0,4})*)?[\dA-PR-TZcf-ntqry=><~]))\<close>
  with the flag \<open>g\<close>. The pattern is written below as a syntax tree, and matched the way a
  backtracking matcher does: \<open>rmatch r s\<close> lists the lengths of the prefixes of \<open>s\<close> that \<open>r\<close>
  matches, in the order the matcher tries them (an alternative's left branch first, a
  repetition's longest run first), so the match found is the head of the list.
\<close>

datatype rx =
  Eps
  | Cls "char \<Rightarrow> bool"
  | Seq rx rx
  | Alt rx rx
  | Opt rx
  | Star rx

fun star :: "nat \<Rightarrow> (string \<Rightarrow> nat list) \<Rightarrow> string \<Rightarrow> nat list" where
  "star 0 f s = [0]"
| "star (Suc n) f s =
     concat (map (\<lambda>l. if l = 0 then [] else map ((+) l) (star n f (drop l s))) (f s)) @ [0]"

primrec rmatch :: "rx \<Rightarrow> string \<Rightarrow> nat list" where
  "rmatch Eps s = [0]"
| "rmatch (Cls P) s = (case s of [] \<Rightarrow> [] | c # _ \<Rightarrow> if P c then [1] else [])"
| "rmatch (Seq a b) s = concat (map (\<lambda>l. map ((+) l) (rmatch b (drop l s))) (rmatch a s))"
| "rmatch (Alt a b) s = rmatch a s @ rmatch b s"
| "rmatch (Opt a) s = rmatch a s @ [0]"
| "rmatch (Star a) s = star (length s) (rmatch a) s"

text \<open>\<open>r{0,n}\<close>, greedy.\<close>

primrec upto_times :: "nat \<Rightarrow> rx \<Rightarrow> rx" where
  "upto_times 0 r = Eps"
| "upto_times (Suc n) r = Opt (Seq r (upto_times n r))"

definition in_range :: "char \<Rightarrow> char \<Rightarrow> char \<Rightarrow> bool" where
  "in_range lo hi c = ((of_char lo :: nat) \<le> of_char c \<and> (of_char c :: nat) \<le> of_char hi)"

definition is_digit :: "char \<Rightarrow> bool" where
  "is_digit c = in_range CHR ''0'' CHR ''9'' c"

definition is_alnum :: "char \<Rightarrow> bool" where
  "is_alnum c = (in_range CHR ''a'' CHR ''z'' c \<or> in_range CHR ''A'' CHR ''Z'' c \<or> is_digit c)"

definition ESC :: char where
  "ESC = CHR 0x1B"

definition CSI :: char where
  "CSI = CHR 0x9B"

definition BEL :: char where
  "BEL = CHR 0x07"

text \<open>\<open>[\u001B\u009B]\<close>\<close>

definition cls_intro :: "char \<Rightarrow> bool" where
  "cls_intro c = (c = ESC \<or> c = CSI)"

text \<open>\<open>[[\]()#;?]\<close>\<close>

definition cls_prefix :: "char \<Rightarrow> bool" where
  "cls_prefix c = (c \<in> set ''[]()#;?'')"

text \<open>\<open>[-a-zA-Z\d\/#&.:=?%@~_]\<close>\<close>

definition cls_param :: "char \<Rightarrow> bool" where
  "cls_param c = (is_alnum c \<or> c \<in> set ''-/#&.:=?%@~_'')"

text \<open>\<open>[\dA-PR-TZcf-ntqry=><~]\<close>\<close>

definition cls_final :: "char \<Rightarrow> bool" where
  "cls_final c = (is_digit c \<or> in_range CHR ''A'' CHR ''P'' c \<or> in_range CHR ''R'' CHR ''T'' c
     \<or> in_range CHR ''f'' CHR ''n'' c \<or> c \<in> set ''Zctqry=><~'')"

text \<open>\<open>(?:(?:[a-zA-Z\d]*(?:;[-a-zA-Z\d\/#&.:=?%@~_]*)*)?\u0007)\<close>\<close>

definition rx_osc :: rx where
  "rx_osc =
     Seq (Opt (Seq (Star (Cls is_alnum)) (Star (Seq (Cls (\<lambda>c. c = CHR '';'')) (Star (Cls cls_param))))))
         (Cls (\<lambda>c. c = BEL))"

text \<open>\<open>(?:(?:\d{1,4}(?:;\d{0,4})*)?[\dA-PR-TZcf-ntqry=><~])\<close>\<close>

definition rx_csi :: rx where
  "rx_csi =
     Seq (Opt (Seq (Seq (Cls is_digit) (upto_times 3 (Cls is_digit)))
                   (Star (Seq (Cls (\<lambda>c. c = CHR '';'')) (upto_times 4 (Cls is_digit))))))
         (Cls cls_final)"

definition ansiRegex :: rx where
  "ansiRegex = Seq (Cls cls_intro) (Seq (Star (Cls cls_prefix)) (Alt rx_osc rx_csi))"

text \<open>
  \<open>s.match(ansiRegex()) || []\<close>: the matches from left to right, none overlapping. The first
  argument counts the characters still covered by the last match. (Every match of this pattern
  has at least two characters; an empty match would move the scan one character on.)
\<close>

fun match_from :: "nat \<Rightarrow> string \<Rightarrow> string list" where
  "match_from k [] = []"
| "match_from (Suc k) (c # cs) = match_from k cs"
| "match_from 0 (c # cs) =
     (case rmatch ansiRegex (c # cs) of
        [] \<Rightarrow> match_from 0 cs
      | l # _ \<Rightarrow> take l (c # cs) # match_from (l - 1) cs)"

definition match_all :: "string \<Rightarrow> string list" where
  "match_all s = match_from 0 s"

text \<open>\<open>stripAnsi(s)\<close> of strip-ansi 5.2.0 is \<open>s.replace(ansiRegex(), '')\<close>.\<close>

fun strip_from :: "nat \<Rightarrow> string \<Rightarrow> string" where
  "strip_from k [] = []"
| "strip_from (Suc k) (c # cs) = strip_from k cs"
| "strip_from 0 (c # cs) =
     (case rmatch ansiRegex (c # cs) of
        [] \<Rightarrow> c # strip_from 0 cs
      | l # _ \<Rightarrow> (if l = 0 then c # strip_from 0 cs else strip_from (l - 1) cs))"

definition stripAnsi :: "string \<Rightarrow> string" where
  "stripAnsi s = strip_from 0 s"

section \<open>ChangeAlgorithm.getChanges\<close>

record change =
  change_line :: nat
  change_index :: nat
  change_text :: string

text \<open>\<open>ansi.eraseEndLine\<close> of ansi-escapes, and the constant \<open>RESET_STYLE\<close>.\<close>

definition ERASE_LINE_END :: string where
  "ERASE_LINE_END = ESC # ''[K''"

definition RESET_STYLE :: string where
  "RESET_STYLE = ESC # ''[39;49m''"

text \<open>
  One round of the \<open>forEach\<close> that strips a string of its codes while recording them: the
  string stripped so far, the positions that hold a code (in the order found), and the codes of
  each position.
\<close>

type_synonym codes = "string \<times> int list \<times> (int \<rightharpoonup> string)"

definition strip_code :: "codes \<Rightarrow> string \<Rightarrow> codes" where
  "strip_code st code =
     (case st of (stripped, codeArray, codeMap) \<Rightarrow>
        let position = indexOf stripped code;
            stripped' = slice stripped 0 position @ slice_from stripped (position + int (length code));
            codeMap' = (if truthy (codeMap position)
                        then codeMap(position \<mapsto> str_of (codeMap position) @ code)
                        else codeMap(position \<mapsto> code));
            codeArray' = (if position \<in> set codeArray then codeArray else codeArray @ [position])
        in (stripped', codeArray', codeMap'))"

definition build_codes :: "string \<Rightarrow> codes" where
  "build_codes s = foldl strip_code (s, [], Map.empty) (match_all s)"

definition stripped_of :: "string \<Rightarrow> string" where
  "stripped_of s = fst (build_codes s)"

definition codeArray_of :: "string \<Rightarrow> int list" where
  "codeArray_of s = fst (snd (build_codes s))"

definition codeMap_of :: "string \<Rightarrow> (int \<rightharpoonup> string)" where
  "codeMap_of s = snd (snd (build_codes s))"

text \<open>
  The search for the code to prepend to a new change: the codes of the last position at or
  before \<open>i\<close>, the search stopping at the first position after \<open>i\<close>.
\<close>

fun codeToPrepend :: "int list \<Rightarrow> (int \<rightharpoonup> string) \<Rightarrow> nat \<Rightarrow> string option \<Rightarrow> string option" where
  "codeToPrepend [] m i acc = acc"
| "codeToPrepend (p # ps) m i acc = (if p > int i then acc else codeToPrepend ps m i (m p))"

text \<open>
  The search that closes a change at column \<open>i\<close>: the first recorded position at or after
  \<open>i\<close> gives the characters up to it and its codes.
\<close>

fun closing :: "int list \<Rightarrow> (int \<rightharpoonup> string) \<Rightarrow> string \<Rightarrow> nat \<Rightarrow> string" where
  "closing [] m sT i = []"
| "closing (p # ps) m sT i =
     (if p \<ge> int i then substring sT (int i) p @ str_of (m p) else closing ps m sT i)"

text \<open>A change is kept unless its stripped text is blank.\<close>

definition push_useful :: "change list \<Rightarrow> change \<Rightarrow> change list" where
  "push_useful changes c = (if trim (stripAnsi (change_text c)) \<noteq> [] then changes @ [c] else changes)"

text \<open>Adding column \<open>i\<close> to the open change.\<close>

definition add_column :: "string \<Rightarrow> int list \<Rightarrow> (int \<rightharpoonup> string) \<Rightarrow> nat \<Rightarrow> change \<Rightarrow> change" where
  "add_column sT aT mT i c =
     c\<lparr>change_text :=
         (if int i \<in> set aT then change_text c @ str_of (mT (int i)) else change_text c)
           @ [sT ! i]\<rparr>"

text \<open>The body of the loop over the columns of the stripped target.\<close>

definition scan_step ::
  "string \<Rightarrow> string \<Rightarrow> (int \<rightharpoonup> string) \<Rightarrow> int list \<Rightarrow> (int \<rightharpoonup> string) \<Rightarrow> nat \<Rightarrow>
   change list \<times> change option \<Rightarrow> nat \<Rightarrow> change list \<times> change option" where
  "scan_step sO sT mO aT mT line st i =
     (case st of (changes, changeBuffer) \<Rightarrow>
        if char_at sT i \<noteq> char_at sO i \<or> mO (int i) \<noteq> mT (int i)
        then (case changeBuffer of
                Some c \<Rightarrow> (changes, Some (add_column sT aT mT i c))
              | None \<Rightarrow>
                  (changes,
                   Some \<lparr>change_line = line, change_index = i,
                         change_text =
                           (let code = codeToPrepend aT mT i None
                            in if truthy code then str_of code @ [sT ! i]
                               else RESET_STYLE @ [sT ! i])\<rparr>))
        else (case changeBuffer of
                Some c \<Rightarrow>
                  if char_at sT (i + 1) \<noteq> None \<and> char_at sT (i + 1) \<noteq> char_at sO (i + 1)
                  then (changes, Some (add_column sT aT mT i c))
                  else (push_useful changes (c\<lparr>change_text := change_text c @ closing aT mT sT i\<rparr>),
                        None)
              | None \<Rightarrow> (changes, None)))"

text \<open>After the loop: a change still open is closed, with the codes recorded at the end.\<close>

definition close_end ::
  "string \<Rightarrow> int list \<Rightarrow> (int \<rightharpoonup> string) \<Rightarrow> change list \<times> change option \<Rightarrow> change list" where
  "close_end sT aT mT st =
     (case st of (changes, changeBuffer) \<Rightarrow>
        (case changeBuffer of
           None \<Rightarrow> changes
         | Some c \<Rightarrow>
             push_useful changes
               (if int (length sT) \<in> set aT
                then c\<lparr>change_text := change_text c @ str_of (mT (int (length sT)))\<rparr>
                else c)))"

text \<open>A shorter target erases the rest of the line.\<close>

definition erase_rest :: "string \<Rightarrow> string \<Rightarrow> nat \<Rightarrow> change list \<Rightarrow> change list" where
  "erase_rest sO sT line changes =
     (if length sT < length sO
      then (if changes \<noteq> []
            then butlast changes @ [(last changes)\<lparr>change_text := change_text (last changes) @ ERASE_LINE_END\<rparr>]
            else [\<lparr>change_line = line, change_index = length sT, change_text = ERASE_LINE_END\<rparr>])
      else changes)"

definition scan_columns :: "string \<Rightarrow> string \<Rightarrow> nat \<Rightarrow> nat \<Rightarrow> change list \<times> change option" where
  "scan_columns original target line n =
     foldl (scan_step (stripped_of original) (stripped_of target) (codeMap_of original)
              (codeArray_of target) (codeMap_of target) line)
       ([], None) [0..<n]"

definition getChanges :: "string \<Rightarrow> string \<Rightarrow> nat \<Rightarrow> change list" where
  "getChanges original target line =
     (if original = target then []
      else if original = [] then [\<lparr>change_line = line, change_index = 0, change_text = target\<rparr>]
      else if target = [] then [\<lparr>change_line = line, change_index = 0, change_text = ERASE_LINE_END\<rparr>]
      else erase_rest (stripped_of original) (stripped_of target) line
             (close_end (stripped_of target) (codeArray_of target) (codeMap_of target)
                (scan_columns original target line (length (stripped_of target)))))"

section \<open>DynamicTerminalThread\<close>

record iline =
  line_text :: string
  line_indent :: nat
  line_force :: bool

record physical =
  row_text :: string
  row_force :: bool

text \<open>
  What the thread takes from outside: the terminal width that \<open>windowSize.get()\<close> reports
  when an operation runs, whether the \<open>debug\<close> package is enabled for the thread (it then
  silences \<open>write\<close>), the packages \<open>wrap-ansi\<close> (called with \<open>hard: true, trim: false\<close>)
  and \<open>indent-string\<close>, and the closure of \<open>elegant-spinner\<close>, whose \<open>k\<close>-th call returns
  \<open>spinner k\<close>.
\<close>

record env =
  width :: nat
  debugEnabled :: bool
  wrapAnsi :: "string \<Rightarrow> nat \<Rightarrow> string"
  indentString :: "string \<Rightarrow> nat \<Rightarrow> string"
  spinner :: "nat \<Rightarrow> string"

record thread =
  active :: bool
  wasRaw :: "bool option"
  cursorHidden :: bool
  previousSpinner :: string
  spinnerCalls :: nat
  nextSpinner :: string
  updateFrequency :: nat
  spinnerColor :: "string \<Rightarrow> string"
  repaintOnResize :: bool
  previousSize :: nat
  previousRender :: "iline list"
  nextRender :: "iline list"
  renderInterval :: bool
  cursorLine :: nat
  cursorIndex :: nat
  stdout :: "string list"
  stdinRaw :: bool

definition SPINNER :: string where
  "SPINNER = ''_*_''"

definition eraseDown :: string where
  "eraseDown = ESC # ''[J''"

definition cursorHide :: string where
  "cursorHide = ESC # ''[?25l''"

definition cursorShow :: string where
  "cursorShow = ESC # ''[?25h''"

text \<open>A number inside a template string.\<close>

fun decimal :: "nat \<Rightarrow> string" where
  "decimal n = (if n < 10 then [char_of (48 + n)] else decimal (n div 10) @ [char_of (48 + n mod 10)])"

text \<open>\<open>s.split("\n")\<close>\<close>

fun split_nl :: "string \<Rightarrow> string list" where
  "split_nl [] = [[]]"
| "split_nl (c # cs) =
     (if c = CHR 0x0A then [] # split_nl cs
      else (case split_nl cs of [] \<Rightarrow> [[c]] | l # ls \<Rightarrow> (c # l) # ls))"

text \<open>
  \<open>s.replace(pattern, replacement)\<close> with a string pattern: only the first occurrence is
  replaced, and in the replacement \<open>$$\<close>, \<open>$&\<close>, \<open>$`\<close> and \<open>$'\<close> stand for a dollar, the
  match, the text before it and the text after it.
\<close>

fun substitution :: "string \<Rightarrow> string \<Rightarrow> string \<Rightarrow> string \<Rightarrow> string" where
  "substitution m b a [] = []"
| "substitution m b a [c] = [c]"
| "substitution m b a (c # d # r) =
     (if c = CHR ''$'' \<and> d = CHR ''$'' then CHR ''$'' # substitution m b a r
      else if c = CHR ''$'' \<and> d = CHR ''&'' then m @ substitution m b a r
      else if c = CHR ''$'' \<and> d = CHR 0x60 then b @ substitution m b a r
      else if c = CHR ''$'' \<and> d = CHR 0x27 then a @ substitution m b a r
      else c # substitution m b a (d # r))"

definition replace :: "string \<Rightarrow> string \<Rightarrow> string \<Rightarrow> string" where
  "replace s pattern replacement =
     (let p = indexOf s pattern
      in if p < 0 then s
         else take (nat p) s
              @ substitution pattern (take (nat p) s) (drop (nat p + length pattern) s) replacement
              @ drop (nat p + length pattern) s)"

text \<open>\<open>write\<close> is silent under \<open>debug\<close>; \<open>process.stdout.write\<close> is not.\<close>

definition stdout_write :: "string \<Rightarrow> thread \<Rightarrow> thread" where
  "stdout_write t s = s\<lparr>stdout := stdout s @ [t]\<rparr>"

definition thread_write :: "env \<Rightarrow> string \<Rightarrow> thread \<Rightarrow> thread" where
  "thread_write e t s = (if \<not> debugEnabled e then stdout_write t s else s)"

definition moveCursorTo :: "env \<Rightarrow> nat \<Rightarrow> nat \<Rightarrow> thread \<Rightarrow> thread" where
  "moveCursorTo e line index s =
     (let s1 =
        (if line < cursorLine s
         then (thread_write e (ESC # ''['' @ decimal (cursorLine s - line) @ ''F'') s)
                \<lparr>cursorLine := line, cursorIndex := 0\<rparr>
         else if line > cursorLine s
         then (thread_write e (replicate (line - cursorLine s) (CHR 0x0A)) s)
                \<lparr>cursorLine := line, cursorIndex := 0\<rparr>
         else s)
      in if index > cursorIndex s1
         then (thread_write e (ESC # ''['' @ decimal (index - cursorIndex s1) @ ''C'') s1)\<lparr>cursorIndex := index\<rparr>
         else if index < cursorIndex s1
         then (if index = 0 then thread_write e [CHR 0x0D] s1
               else thread_write e (ESC # ''['' @ decimal (cursorIndex s1 - index) @ ''D'') s1)
                \<lparr>cursorIndex := index\<rparr>
         else s1)"

text \<open>The rows of one logical line: the spinner replaced, the text wrapped, indented and split.\<close>

definition rows_of :: "env \<Rightarrow> string \<Rightarrow> iline \<Rightarrow> string list" where
  "rows_of e glyph line =
     split_nl (indentString e (wrapAnsi e (replace (line_text line) SPINNER glyph) (width e))
                 (line_indent line))"

definition previousLines_of :: "env \<Rightarrow> thread \<Rightarrow> string list" where
  "previousLines_of e s =
     concat (map (rows_of e (spinnerColor s (previousSpinner s))) (previousRender s))"

definition nextLines_of :: "env \<Rightarrow> thread \<Rightarrow> physical list" where
  "nextLines_of e s =
     concat (map (\<lambda>line. map (\<lambda>splitLine. \<lparr>row_text = splitLine, row_force = line_force line\<rparr>)
                          (rows_of e (spinnerColor s (nextSpinner s)) line))
               (nextRender s))"

text \<open>The changes of one row: the whole row when it is forced, the change algorithm otherwise.\<close>

definition lineChanges :: "string list \<Rightarrow> physical list \<Rightarrow> nat \<Rightarrow> change list" where
  "lineChanges previousLines nextLines lineNumber =
     (let previousLine = (if lineNumber < length previousLines then previousLines ! lineNumber else []);
          nextLine = nextLines ! lineNumber
      in if row_force nextLine
         then [\<lparr>change_line = lineNumber, change_index = 0,
                change_text = row_text nextLine @ ERASE_LINE_END\<rparr>]
         else getChanges previousLine (row_text nextLine) lineNumber)"

text \<open>Trailing rows of the previous frame are erased after the last change.\<close>

definition erase_trailing :: "string list \<Rightarrow> physical list \<Rightarrow> change list \<Rightarrow> change list" where
  "erase_trailing previousLines nextLines changes =
     (if length previousLines > length nextLines
      then (if changes \<noteq> []
            then butlast changes @ [(last changes)\<lparr>change_text := change_text (last changes) @ eraseDown\<rparr>]
            else [\<lparr>change_line = 0, change_index = 0, change_text = eraseDown\<rparr>])
      else changes)"

definition render_changes :: "string list \<Rightarrow> physical list \<Rightarrow> change list" where
  "render_changes previousLines nextLines =
     erase_trailing previousLines nextLines
       (concat (map (lineChanges previousLines nextLines) [0..<length nextLines]))"

definition write_change :: "env \<Rightarrow> thread \<Rightarrow> change \<Rightarrow> thread" where
  "write_change e s c =
     (let s1 = thread_write e (change_text c) (moveCursorTo e (change_line c) (change_index c) s)
      in s1\<lparr>cursorIndex := cursorIndex s1 + length (stripAnsi (change_text c))\<rparr>)"

definition render :: "env \<Rightarrow> thread \<Rightarrow> thread" where
  "render e s =
     (if \<not> active s then s
      else
        let previousLines = previousLines_of e s;
            nextLines = nextLines_of e s;
            s1 = s\<lparr>cursorLine := length previousLines - 1,
                   cursorIndex := (if previousLines = [] then 0 else length (last previousLines))\<rparr>;
            repaint = (repaintOnResize s1 \<and> previousSize s1 \<noteq> width e);
            s2 = (if repaint
                  then (stdout_write eraseDown (moveCursorTo e 0 0 s1))\<lparr>previousSize := width e\<rparr>
                  else s1);
            s3 = s2\<lparr>previousSpinner := nextSpinner s2\<rparr>;
            changes = render_changes (if repaint then [] else previousLines) nextLines;
            s4 = foldl (write_change e) s3 changes;
            s5 = moveCursorTo e (length nextLines - 1)
                   (if nextLines = [] then 0 else length (row_text (last nextLines))) s4
        in s5\<lparr>previousRender :=
                 map (\<lambda>line. \<lparr>line_text = row_text line, line_indent = 0, line_force = False\<rparr>) nextLines\<rparr>)"

text \<open>The timer of the spinner: \<open>renderInterval\<close> holds whether the interval is set.\<close>

definition startTimer :: "thread \<Rightarrow> thread" where
  "startTimer s =
     (if \<not> renderInterval s \<and> active s
         \<and> list_ex (\<lambda>nextRenderLine. indexOf (line_text nextRenderLine) SPINNER \<noteq> - 1) (nextRender s)
      then s\<lparr>renderInterval := True\<rparr>
      else s)"

definition stopTimer :: "env \<Rightarrow> thread \<Rightarrow> thread" where
  "stopTimer e s = (if renderInterval s then render e (s\<lparr>renderInterval := False\<rparr>) else s)"

definition updateSpinner :: "env \<Rightarrow> thread \<Rightarrow> thread" where
  "updateSpinner e s =
     render e (s\<lparr>nextSpinner := spinner e (spinnerCalls s), spinnerCalls := Suc (spinnerCalls s)\<rparr>)"

text \<open>One tick of the interval, when it is set.\<close>

definition tick :: "env \<Rightarrow> thread \<Rightarrow> thread" where
  "tick e s = (if renderInterval s then updateSpinner e s else s)"

text \<open>The input of \<open>update\<close> and \<open>append\<close>: a string, a line object, or an array of either.\<close>

record line_input =
  in_text :: "string option"
  in_indent :: "nat option"
  in_force :: "bool option"

datatype element = EString string | ELine line_input

datatype content = CString string | CLine line_input | CArray "element list" | CNone

definition splitStringToLineObjects :: "string \<Rightarrow> nat \<Rightarrow> bool \<Rightarrow> iline list" where
  "splitStringToLineObjects text indent force =
     map (\<lambda>v. \<lparr>line_text = v, line_indent = indent, line_force = force\<rparr>) (split_nl text)"

definition element_lines :: "element \<Rightarrow> iline list" where
  "element_lines el =
     (case el of
        EString s \<Rightarrow> splitStringToLineObjects s 0 False
      | ELine l \<Rightarrow>
          (case in_text l of
             Some t \<Rightarrow> splitStringToLineObjects t
                        (case in_indent l of None \<Rightarrow> 0 | Some n \<Rightarrow> n)
                        (case in_force l of None \<Rightarrow> False | Some f \<Rightarrow> f)
           | None \<Rightarrow> []))"

definition processTextToLineObjects :: "content \<Rightarrow> iline list" where
  "processTextToLineObjects text =
     (case text of
        CLine l \<Rightarrow> concat (map element_lines [ELine l])
      | CArray els \<Rightarrow> concat (map element_lines els)
      | CString s \<Rightarrow> splitStringToLineObjects s 0 False
      | CNone \<Rightarrow> [])"

definition update :: "env \<Rightarrow> content \<Rightarrow> thread \<Rightarrow> thread" where
  "update e text s = render e (startTimer (s\<lparr>nextRender := processTextToLineObjects text\<rparr>))"

definition append_lines :: "env \<Rightarrow> content \<Rightarrow> thread \<Rightarrow> thread" where
  "append_lines e text s =
     render e (startTimer (s\<lparr>nextRender := nextRender s @ processTextToLineObjects text\<rparr>))"

definition getLines :: "thread \<Rightarrow> iline list" where
  "getLines s = nextRender s"

definition resetRender :: "thread \<Rightarrow> thread" where
  "resetRender s = s\<lparr>previousRender := []\<rparr>"

record options =
  disableInput :: "bool option"
  hideCursor :: "bool option"
  spinnerColour :: "(string \<Rightarrow> string) option"
  opt_updateFrequency :: "nat option"
  opt_repaintOnResize :: "bool option"

definition start :: "env \<Rightarrow> options \<Rightarrow> thread \<Rightarrow> thread" where
  "start e opts s =
     (if active s then s
      else
        let s0 = s\<lparr>active := True, wasRaw := Some (stdinRaw s)\<rparr>;
            s1 = (if (case disableInput opts of None \<Rightarrow> False | Some b \<Rightarrow> b)
                  then s0\<lparr>stdinRaw := True\<rparr> else s0);
            s2 = (if (case hideCursor opts of None \<Rightarrow> True | Some b \<Rightarrow> b)
                  then thread_write e cursorHide (s1\<lparr>cursorHidden := True\<rparr>) else s1);
            s3 = (case spinnerColour opts of None \<Rightarrow> s2 | Some f \<Rightarrow> s2\<lparr>spinnerColor := f\<rparr>);
            s4 = (case opt_updateFrequency opts of
                    None \<Rightarrow> s3\<lparr>updateFrequency := 100\<rparr>
                  | Some n \<Rightarrow> if n \<noteq> 0 then s3\<lparr>updateFrequency := n\<rparr> else s3);
            s5 = (if (case opt_repaintOnResize opts of None \<Rightarrow> False | Some b \<Rightarrow> b)
                  then s4\<lparr>repaintOnResize := True\<rparr> else s4);
            s6 = thread_write e (CHR 0x0D # ERASE_LINE_END) (s5\<lparr>previousRender := [], nextRender := []\<rparr>)
        in startTimer (s6\<lparr>cursorLine := 0, cursorIndex := 0\<rparr>))"

definition stop :: "env \<Rightarrow> bool \<Rightarrow> thread \<Rightarrow> thread" where
  "stop e commit s =
     (if \<not> active s then s
      else
        let s1 = stopTimer e (s\<lparr>active := False\<rparr>);
            s2 = (if commit
                  then (let r = render e s1 in moveCursorTo e (length (previousRender r)) 0 r)
                  else stdout_write eraseDown (moveCursorTo e 0 0 (s1\<lparr>nextRender := []\<rparr>)));
            s3 = (case wasRaw s2 of None \<Rightarrow> s2 | Some raw \<Rightarrow> s2\<lparr>stdinRaw := raw\<rparr>)\<lparr>wasRaw := None\<rparr>;
            s4 = (if cursorHidden s3 then thread_write e cursorShow s3 else s3)\<lparr>cursorHidden := False\<rparr>
        in s4\<lparr>previousRender := [], nextRender := []\<rparr>)"

section \<open>The dispatcher of the worker process\<close>

datatype command =
  START "options option"
  | STOP "bool option"
  | DESTROY
  | UPDATE content
  | APPEND content
  | RENDER bool
  | RENDER_QUEUE
  | UNKNOWN

record message =
  cmd :: command
  msg_uuid :: string

record response =
  status :: string
  data :: "iline list option"
  uuid :: string

definition reply :: "string \<Rightarrow> message \<Rightarrow> response" where
  "reply st msg = \<lparr>status = st, data = None, uuid = msg_uuid msg\<rparr>"

definition default_options :: options where
  "default_options = \<lparr>disableInput = None, hideCursor = None, spinnerColour = None,
     opt_updateFrequency = None, opt_repaintOnResize = None\<rparr>"

definition on_message :: "env \<Rightarrow> thread \<Rightarrow> message \<Rightarrow> thread \<times> response option" where
  "on_message e worker msg =
     (case cmd msg of
        START opts \<Rightarrow>
          (start e (case opts of None \<Rightarrow> default_options | Some p \<Rightarrow> p) worker,
           Some (reply ''started'' msg))
      | STOP commit \<Rightarrow>
          (stop e (case commit of None \<Rightarrow> True | Some c \<Rightarrow> c) worker, Some (reply ''stopped'' msg))
      | DESTROY \<Rightarrow> (stop e True worker, None)
      | UPDATE text \<Rightarrow> (update e text worker, Some (reply ''updated'' msg))
      | APPEND text \<Rightarrow> (update e text worker, Some (reply ''appended'' msg))
      | RENDER force \<Rightarrow>
          (render e (if force then resetRender worker else worker), Some (reply ''rendered'' msg))
      | RENDER_QUEUE \<Rightarrow>
          (worker, Some \<lparr>status = ''renderQueue'', data = Some (getLines worker), uuid = msg_uuid msg\<rparr>)
      | UNKNOWN \<Rightarrow> (worker, Some (reply ''error'' msg)))"

section \<open>DynamicTerminal: the caller's side\<close>

text \<open>
  \<open>send\<close> returns a promise. The promise, the listener on the worker's messages and the
  timeout are the state of one call; the callbacks that Node runs for it are the events.
\<close>

datatype outcome = Pending | Resolved "response option" | Rejected

record call =
  call_uuid :: string
  listening :: bool
  timeoutTimer :: "nat option"
  promise :: outcome
  lastError :: "string option"

datatype event = Message response | TimerExpired | SendFailed

definition resolve :: "response option \<Rightarrow> call \<Rightarrow> call" where
  "resolve v c = (if promise c = Pending then c\<lparr>promise := Resolved v\<rparr> else c)"

definition reject :: "call \<Rightarrow> call" where
  "reject c = (if promise c = Pending then c\<lparr>promise := Rejected\<rparr> else c)"

text \<open>
  \<open>send(data, timeout = 10000)\<close>: the listener is registered and the timer set; \<open>uid\<close> is the
  identifier that \<open>uuid()\<close> returned, \<open>err\<close> the caller's \<open>lastError\<close> so far.
\<close>

definition send :: "string \<Rightarrow> nat option \<Rightarrow> string option \<Rightarrow> call" where
  "send uid timeout err =
     \<lparr>call_uuid = uid, listening = True,
      timeoutTimer = Some (case timeout of None \<Rightarrow> 10000 | Some t \<Rightarrow> t),
      promise = Pending, lastError = err\<rparr>"

text \<open>
  The three callbacks of \<open>send\<close>: \<open>handler\<close> on a message of the worker, the function given
  to \<open>setTimeout\<close> (a timer that was cleared does not run), and the callback of \<open>worker.send\<close>
  when the transmission failed.
\<close>

fun handle :: "call \<Rightarrow> event \<Rightarrow> call" where
  "handle c (Message msg) =
     (if listening c \<and> uuid msg = call_uuid c
      then resolve (Some msg) (c\<lparr>listening := False, timeoutTimer := None\<rparr>)
      else c)"
| "handle c TimerExpired =
     (case timeoutTimer c of
        None \<Rightarrow> c
      | Some _ \<Rightarrow>
          resolve None
            (c\<lparr>listening := False, timeoutTimer := None,
               lastError := Some ''Communication timeout''\<rparr>))"
| "handle c SendFailed = reject c"

definition run :: "call \<Rightarrow> event list \<Rightarrow> call" where
  "run c evs = foldl handle c evs"

text \<open>What the caller of an asynchronous method gets from the promise it awaits.\<close>

datatype 'a completion = Waiting | Returns 'a | Throws

text \<open>
  \<open>start\<close>, \<open>stop\<close>, \<open>update\<close>, \<open>append\<close> and \<open>forceRender\<close> after \<open>await this.send(...)\<close>:
  true when the response has the status the method expects.
\<close>

definition awaited :: "string \<Rightarrow> outcome \<Rightarrow> bool completion" where
  "awaited expected p =
     (case p of
        Pending \<Rightarrow> Waiting
      | Rejected \<Rightarrow> Throws
      | Resolved r \<Rightarrow> Returns (case r of None \<Rightarrow> False | Some m \<Rightarrow> status m = expected))"

text \<open>\<open>getRenderQueue\<close> after \<open>await this.send({ cmd: "RENDER_QUEUE" })\<close>.\<close>

definition getRenderQueue_awaited :: "outcome \<Rightarrow> iline list option completion" where
  "getRenderQueue_awaited p =
     (case p of
        Pending \<Rightarrow> Waiting
      | Rejected \<Rightarrow> Throws
      | Resolved r \<Rightarrow>
          Returns (case r of
                     None \<Rightarrow> Some []
                   | Some m \<Rightarrow> if status m = ''rendered'' then data m else Some []))"

text \<open>
  A worker that is alive and answers in time: it handles the command, and its response, when
  it sends one, is the next event of the call.
\<close>

definition answered :: "env \<Rightarrow> thread \<Rightarrow> command \<Rightarrow> string \<Rightarrow> string option \<Rightarrow> call" where
  "answered e worker c uid err =
     run (send uid None err)
       (case snd (on_message e worker \<lparr>cmd = c, msg_uuid = uid\<rparr>) of
          None \<Rightarrow> [] | Some m \<Rightarrow> [Message m])"

definition getRenderQueue :: "env \<Rightarrow> thread \<Rightarrow> string \<Rightarrow> string option \<Rightarrow> iline list option completion" where
  "getRenderQueue e worker uid err = getRenderQueue_awaited (promise (answered e worker RENDER_QUEUE uid err))"

text \<open>An event that is not the response to the call \<open>uid\<close>: a message for another call.\<close>

definition other_message :: "string \<Rightarrow> event \<Rightarrow> bool" where
  "other_message uid ev = (case ev of Message m \<Rightarrow> uuid m \<noteq> uid | _ \<Rightarrow> False)"

section \<open>Notions of the specification and examples\<close>

text \<open>
  An unstyled string: it holds no escape character, no one-byte CSI and no bell. The regular
  expression finds no code in such a string, and a code followed by such a string is matched
  alone.
\<close>

definition plain :: "string \<Rightarrow> bool" where
  "plain s = list_all (\<lambda>c. c \<noteq> ESC \<and> c \<noteq> CSI \<and> c \<noteq> BEL) s"

text \<open>\<open>ends_with t e\<close>: the text \<open>t\<close> ends with \<open>e\<close>.\<close>

definition ends_with :: "string \<Rightarrow> string \<Rightarrow> bool" where
  "ends_with t e = (length e \<le> length t \<and> drop (length t - length e) t = e)"

text \<open>
  The row of the specification's round trip: a buffer addressed by column. A change writes
  its stripped text from its column on (columns between the end of the row and the change
  are blank); a change that ends with the erase-to-end-of-line marker clears the row from
  the column after its text.
\<close>

definition write_at :: "string \<Rightarrow> nat \<Rightarrow> string \<Rightarrow> string" where
  "write_at row i t = take i row @ replicate (i - length row) CHR '' '' @ t @ drop (i + length t) row"

definition apply_change :: "string \<Rightarrow> change \<Rightarrow> string" where
  "apply_change row c =
     (let t = stripAnsi (change_text c); w = write_at row (change_index c) t
      in if ends_with (change_text c) ERASE_LINE_END then take (change_index c + length t) w else w)"

definition apply_changes :: "string \<Rightarrow> change list \<Rightarrow> string" where
  "apply_changes row cs = foldl apply_change row cs"

text \<open>The column after the last one that a change writes.\<close>

definition span_end :: "change \<Rightarrow> nat" where
  "span_end c = change_index c + length (stripAnsi (change_text c))"

text \<open>
  The thread as its constructor leaves it: \<open>colour\<close> is \<open>chalk.cyan\<close>, \<open>raw\<close> the mode of the
  input stream; the cursor position is not set before \<open>start\<close>.
\<close>

definition new_thread :: "env \<Rightarrow> (string \<Rightarrow> string) \<Rightarrow> bool \<Rightarrow> thread" where
  "new_thread e colour raw =
     \<lparr>active = False, wasRaw = None, cursorHidden = False, previousSpinner = [],
      spinnerCalls = 1, nextSpinner = spinner e 0, updateFrequency = 100, spinnerColor = colour,
      repaintOnResize = False, previousSize = width e, previousRender = [], nextRender = [],
      renderInterval = False, cursorLine = 0, cursorIndex = 0, stdout = [], stdinRaw = raw\<rparr>"

text \<open>
  The environment of the examples: a terminal of 80 columns, on which the one-row texts of
  the examples are not wrapped and are indented with blanks, and the four frames that
  \<open>elegant-spinner\<close> has on Windows.
\<close>

definition example_env :: env where
  "example_env =
     \<lparr>width = 80, debugEnabled = False,
      wrapAnsi = (\<lambda>s w. s),
      indentString = (\<lambda>s n. replicate n CHR '' '' @ s),
      spinner = (\<lambda>k. [[CHR ''-'', CHR 0x5C, CHR ''|'', CHR ''/''] ! (Suc k mod 4)])\<rparr>"

text \<open>
  \<open>chalk.cyan\<close> (chalk 2.4, colours enabled) on a text without codes or line breaks, as a
  spinner glyph is: the empty text stays empty, any other is put between the codes of cyan
  and of the default colour.
\<close>

definition cyan :: "string \<Rightarrow> string" where
  "cyan s = (if s = [] then [] else ESC # ''[36m'' @ s @ ESC # ''[39m'')"

text \<open>The worker handling a sequence of commands.\<close>

definition handle_all :: "env \<Rightarrow> thread \<Rightarrow> command list \<Rightarrow> thread" where
  "handle_all e worker cmds =
     foldl (\<lambda>w c. fst (on_message e w \<lparr>cmd = c, msg_uuid = []\<rparr>)) worker cmds"

text \<open>
  What \<open>stop(true)\<close> comes to on an active session: the cursor moved below the rows of the
  previous frame, the input mode and the cursor restored, both frames emptied.
\<close>

definition committed :: "env \<Rightarrow> thread \<Rightarrow> thread" where
  "committed e s =
     (let m = moveCursorTo e (length (previousRender s)) 0 (s\<lparr>active := False, renderInterval := False\<rparr>);
          r = (case wasRaw m of None \<Rightarrow> m | Some raw \<Rightarrow> m\<lparr>stdinRaw := raw\<rparr>)\<lparr>wasRaw := None\<rparr>;
          c = (if cursorHidden r then thread_write e cursorShow r else r)\<lparr>cursorHidden := False\<rparr>
      in c\<lparr>previousRender := [], nextRender := []\<rparr>)"

text \<open>
  A styled string, as the specification's round trip takes it: a sequence of visible
  characters (any code unit but the escape character, the one-byte CSI and the bell) and of
  style sequences. A style sequence is an SGR sequence: the escape character, \<open>[\<close>,
  parameters separated by semicolons (the first of one to four digits, the others of at most
  four; or no parameter at all) and a final \<open>m\<close>. \<open>text_of\<close> is the string, \<open>visible\<close> its
  characters without the style sequences, \<open>styles\<close> its style sequences.
\<close>

datatype token = Glyph char | Style string

fun token_text :: "token \<Rightarrow> string" where
  "token_text (Glyph c) = [c]"
| "token_text (Style s) = s"

fun token_glyph :: "token \<Rightarrow> string" where
  "token_glyph (Glyph c) = [c]"
| "token_glyph (Style s) = []"

definition text_of :: "token list \<Rightarrow> string" where
  "text_of ts = concat (map token_text ts)"

definition visible :: "token list \<Rightarrow> string" where
  "visible ts = concat (map token_glyph ts)"

definition styles :: "token list \<Rightarrow> string list" where
  "styles ts = concat (map (\<lambda>t. case t of Glyph c \<Rightarrow> [] | Style s \<Rightarrow> [s]) ts)"















section \<open>Lemmas on the change algorithm\<close>

lemma scan_inv:
  "foldl (scan_step sO sT mO aT mT line) ([], None) [0..<n] = (chs, buf) \<Longrightarrow>
   (\<forall>c\<in>set chs. change_line c = line) \<and> sorted_wrt (<) (map change_index chs) \<and>
   (case buf of None \<Rightarrow> \<forall>c\<in>set chs. change_index c < n
    | Some b \<Rightarrow> change_line b = line \<and> change_index b < n \<and> (\<forall>c\<in>set chs. change_index c < change_index b))"
proof (induction n arbitrary: chs buf)
  case 0
  then show ?case by simp
next
  case (Suc n)
  obtain chs0 buf0 where st: "foldl (scan_step sO sT mO aT mT line) ([], None) [0..<n] = (chs0, buf0)"
    by (cases "foldl (scan_step sO sT mO aT mT line) ([], None) [0..<n]") auto
  note ih = Suc.IH[OF st]
  from Suc.prems st have step: "scan_step sO sT mO aT mT line (chs0, buf0) n = (chs, buf)"
    by simp
  show ?case
  proof (cases buf0)
    case None
    with step ih show ?thesis
      by (auto simp: scan_step_def split: if_splits intro: less_SucI)
  next
    case (Some b)
    with step ih show ?thesis
      by (auto simp: scan_step_def push_useful_def add_column_def sorted_wrt_append
          split: if_splits intro: less_SucI less_trans)
        (meson less_SucI less_trans)+
  qed
qed


lemma stripped_of_Nil: "stripped_of [] = []"
  by (simp add: stripped_of_def build_codes_def match_all_def)

lemma close_end_inv:
  assumes "foldl (scan_step sO sT mO aT mT line) ([], None) [0..<n] = st"
  shows "(\<forall>c\<in>set (close_end sT aT mT st). change_line c = line \<and> change_index c < n) \<and>
         sorted_wrt (<) (map change_index (close_end sT aT mT st))"
proof -
  obtain chs buf where st: "st = (chs, buf)" by (cases st)
  from scan_inv[OF assms[unfolded st]] show ?thesis
    unfolding st
    by (cases buf) (auto simp: close_end_def push_useful_def sorted_wrt_append intro: less_trans)
qed

lemma erase_rest_index:
  "map change_index (erase_rest sO sT line R) =
     (if length sT < length sO \<and> R = [] then [length sT] else map change_index R)"
  by (cases R rule: rev_cases) (auto simp: erase_rest_def)

lemma erase_rest_line:
  "map change_line (erase_rest sO sT line R) =
     (if length sT < length sO \<and> R = [] then [line] else map change_line R)"
  by (cases R rule: rev_cases) (auto simp: erase_rest_def)

lemma erase_rest_last:
  "length sT < length sO \<Longrightarrow>
     erase_rest sO sT line R \<noteq> [] \<and> ends_with (change_text (last (erase_rest sO sT line R))) ERASE_LINE_END"
  by (auto simp: erase_rest_def ends_with_def)

lemma getChanges_line_index:
  "(\<forall>c\<in>set (getChanges A B line). change_line c = line \<and> change_index c \<le> length (stripped_of B))
   \<and> sorted_wrt (<) (map change_index (getChanges A B line))"
proof -
  let ?R = "close_end (stripped_of B) (codeArray_of B) (codeMap_of B)
              (scan_columns A B line (length (stripped_of B)))"
  have inv: "(\<forall>c\<in>set ?R. change_line c = line \<and> change_index c < length (stripped_of B)) \<and>
         sorted_wrt (<) (map change_index ?R)"
    unfolding scan_columns_def by (rule close_end_inv) simp
  let ?E = "erase_rest (stripped_of A) (stripped_of B) line ?R"
  have l: "\<forall>x\<in>set (map change_line ?E). x = line"
    unfolding erase_rest_line using inv by auto
  have i: "\<forall>x\<in>set (map change_index ?E). x \<le> length (stripped_of B)"
    unfolding erase_rest_index using inv by (auto intro: less_imp_le)
  have s: "sorted_wrt (<) (map change_index ?E)"
    unfolding erase_rest_index using inv by auto
  from l i s show ?thesis
    by (auto simp: getChanges_def)
qed

lemma getChanges_shrink:
  assumes "length (stripped_of B) < length (stripped_of A)"
  shows "getChanges A B line \<noteq> [] \<and> ends_with (change_text (last (getChanges A B line))) ERASE_LINE_END"
proof -
  from assms have "A \<noteq> B" "A \<noteq> []"
    by (auto simp: stripped_of_Nil)
  with assms show ?thesis
    using erase_rest_last[OF assms]
    by (auto simp: getChanges_def ends_with_def)
qed

lemma rmatch_intro_none: "\<not> cls_intro c \<Longrightarrow> rmatch ansiRegex (c # cs) = []"
  by (simp add: ansiRegex_def)

lemma plain_intro: "plain s \<Longrightarrow> list_all (\<lambda>c. \<not> cls_intro c) s"
  by (induction s) (auto simp: plain_def cls_intro_def)

lemma plain_bel: "plain s \<Longrightarrow> BEL \<notin> set s"
  by (induction s) (auto simp: plain_def)

lemma plain_take: "plain s \<Longrightarrow> plain (take n s)"
  unfolding plain_def list_all_iff by (auto dest: in_set_takeD)

lemma plain_drop: "plain s \<Longrightarrow> plain (drop n s)"
  unfolding plain_def list_all_iff by (auto dest: in_set_dropD)

lemma match_from_plain: "list_all (\<lambda>c. \<not> cls_intro c) s \<Longrightarrow> match_from 0 s = []"
  by (induction s) (simp_all add: rmatch_intro_none)

lemma strip_from_plain_append:
  "list_all (\<lambda>c. \<not> cls_intro c) s \<Longrightarrow> strip_from 0 (s @ t) = s @ strip_from 0 t"
  by (induction s) (simp_all add: rmatch_intro_none)

lemma seq_bel_none: "BEL \<notin> set s \<Longrightarrow> rmatch (Seq X (Cls (\<lambda>c. c = BEL))) s = []"
  by (auto split: list.splits) (metis in_set_dropD list.set_intros(1))

lemma osc_none: "BEL \<notin> set s \<Longrightarrow> rmatch rx_osc s = []"
  unfolding rx_osc_def by (rule seq_bel_none)

lemma reset_match: "BEL \<notin> set s \<Longrightarrow> rmatch ansiRegex (RESET_STYLE @ s) = [8,7,6,4,3]"
  by (simp add: ansiRegex_def RESET_STYLE_def rx_csi_def osc_none cls_intro_def cls_prefix_def
    cls_final_def is_digit_def in_range_def ESC_def BEL_def eval_nat_numeral)



lemma stripAnsi_plain_append: "plain s \<Longrightarrow> stripAnsi (s @ t) = s @ stripAnsi t"
  by (simp add: stripAnsi_def strip_from_plain_append plain_intro)

lemma stripAnsi_plain: "plain s \<Longrightarrow> stripAnsi s = s"
  using stripAnsi_plain_append[of s "[]"] by (simp add: stripAnsi_def)

lemma stripAnsi_reset_append: "BEL \<notin> set t \<Longrightarrow> stripAnsi (RESET_STYLE @ t) = stripAnsi t"
proof -
  assume b: "BEL \<notin> set t"
  have "strip_from 0 (RESET_STYLE @ t) = strip_from 7 (tl RESET_STYLE @ t)"
    using reset_match[OF b] by (simp add: RESET_STYLE_def)
  also have "\<dots> = strip_from 0 t"
    by (simp add: RESET_STYLE_def eval_nat_numeral)
  finally show ?thesis by (simp add: stripAnsi_def)
qed

lemma stripAnsi_reset: "plain s \<Longrightarrow> stripAnsi (RESET_STYLE @ s) = s"
  by (simp add: stripAnsi_reset_append plain_bel stripAnsi_plain)

lemma build_codes_plain: "plain s \<Longrightarrow> build_codes s = (s, [], Map.empty)"
  by (simp add: build_codes_def match_all_def match_from_plain plain_intro)

lemma stripped_of_plain: "plain s \<Longrightarrow> stripped_of s = s"
  by (simp add: stripped_of_def build_codes_plain)

lemma codeArray_of_plain: "plain s \<Longrightarrow> codeArray_of s = []"
  by (simp add: codeArray_of_def build_codes_plain)

lemma codeMap_of_plain: "plain s \<Longrightarrow> codeMap_of s = Map.empty"
  by (simp add: codeMap_of_def build_codes_plain)

text \<open>The loop body when the target holds no code.\<close>

lemma scan_step_plain:
  "scan_step sO sT mO [] Map.empty line (chs, buf) i =
     (if char_at sT i \<noteq> char_at sO i \<or> mO (int i) \<noteq> None
      then (chs, Some (case buf of
                         Some c \<Rightarrow> c\<lparr>change_text := change_text c @ [sT ! i]\<rparr>
                       | None \<Rightarrow> \<lparr>change_line = line, change_index = i,
                                   change_text = RESET_STYLE @ [sT ! i]\<rparr>))
      else (case buf of
              None \<Rightarrow> (chs, None)
            | Some c \<Rightarrow>
                if char_at sT (i + 1) \<noteq> None \<and> char_at sT (i + 1) \<noteq> char_at sO (i + 1)
                then (chs, Some (c\<lparr>change_text := change_text c @ [sT ! i]\<rparr>))
                else (push_useful chs c, None)))"
  by (auto simp: scan_step_def add_column_def truthy_def split: option.splits)


lemma seg_snoc:
  "n < length B \<Longrightarrow> j \<le> n \<Longrightarrow> take (n - j) (drop j B) @ [B ! n] = take (Suc n - j) (drop j B)"
  by (simp add: Suc_diff_le take_Suc_conv_app_nth)

lemma span_end_reset:
  "plain seg \<Longrightarrow> change_text c = RESET_STYLE @ seg \<Longrightarrow> span_end c = change_index c + length seg"
  by (simp add: span_end_def stripAnsi_reset)

lemma scan_span_inv:
  assumes pB: "plain sT"
  shows "n \<le> length sT \<Longrightarrow>
    foldl (scan_step sO sT mO [] Map.empty line) ([], None) [0..<n] = (chs, buf) \<Longrightarrow>
    (\<forall>c\<in>set chs. (\<exists>seg. plain seg \<and> change_text c = RESET_STYLE @ seg) \<and>
        span_end c \<le> (case buf of None \<Rightarrow> n | Some b \<Rightarrow> change_index b)) \<and>
    sorted_wrt (\<lambda>c d. span_end c \<le> change_index d) chs \<and>
    (case buf of None \<Rightarrow> True
     | Some b \<Rightarrow> change_index b < n \<and>
         change_text b = RESET_STYLE @ take (n - change_index b) (drop (change_index b) sT))"
proof (induction n arbitrary: chs buf)
  case 0
  then show ?case by simp
next
  case (Suc n)
  obtain chs0 buf0 where st: "foldl (scan_step sO sT mO [] Map.empty line) ([], None) [0..<n] = (chs0, buf0)"
    by (cases "foldl (scan_step sO sT mO [] Map.empty line) ([], None) [0..<n]") auto
  from Suc.prems have n: "n < length sT" by simp
  then have nle: "n \<le> length sT" by simp
  note ih = Suc.IH[OF nle st]
  from Suc.prems st have step: "scan_step sO sT mO [] Map.empty line (chs0, buf0) n = (chs, buf)"
    by simp
  show ?case
  proof (cases buf0)
    case None
    have one: "take (Suc n - n) (drop n sT) = [sT ! n]"
      using n by (simp add: take_Suc_conv_app_nth)
    from step None ih one show ?thesis
      by (auto simp: scan_step_plain split: if_splits intro: le_SucI)
  next
    case (Some b)
    with ih have bi: "change_index b < n"
      and bt: "change_text b = RESET_STYLE @ take (n - change_index b) (drop (change_index b) sT)"
      and cl: "\<forall>c\<in>set chs0. (\<exists>seg. plain seg \<and> change_text c = RESET_STYLE @ seg) \<and>
                 span_end c \<le> change_index b"
      and so: "sorted_wrt (\<lambda>c d. span_end c \<le> change_index d) chs0"
      by simp_all
    show ?thesis
    proof (cases "char_at sT n \<noteq> char_at sO n \<or> mO (int n) \<noteq> None \<or>
        (char_at sT (n + 1) \<noteq> None \<and> char_at sT (n + 1) \<noteq> char_at sO (n + 1))")
      case True
      with step Some have r: "chs = chs0" "buf = Some (b\<lparr>change_text := change_text b @ [sT ! n]\<rparr>)"
        by (auto simp: scan_step_plain split: if_splits)
      have "change_text b @ [sT ! n] =
          RESET_STYLE @ take (Suc n - change_index b) (drop (change_index b) sT)"
        using seg_snoc[of n sT "change_index b"] n bi by (simp add: bt)
      with r bi cl so show ?thesis by simp
    next
      case False
      with step Some have r: "chs = push_useful chs0 b" "buf = None"
        by (auto simp: scan_step_plain split: if_splits)
      have pseg: "plain (take (n - change_index b) (drop (change_index b) sT))"
        using pB by (simp add: plain_take plain_drop)
      have se: "span_end b = n"
        using span_end_reset[OF pseg bt] bi n by simp
      have "\<forall>c\<in>set (chs0 @ [b]). (\<exists>seg. plain seg \<and> change_text c = RESET_STYLE @ seg) \<and>
                 span_end c \<le> Suc n"
        using cl bi se pseg bt by (auto intro: le_SucI less_imp_le le_trans)
      moreover have "sorted_wrt (\<lambda>c d. span_end c \<le> change_index d) (chs0 @ [b])"
        using so cl by (simp add: sorted_wrt_append)
      moreover have "\<forall>c\<in>set chs0. span_end c \<le> Suc n"
        using cl bi by (auto intro: le_SucI less_imp_le le_trans)
      ultimately show ?thesis
        using r so cl by (auto simp: push_useful_def)
    qed
  qed
qed

lemma erase_rest_spans:
  assumes "\<forall>c\<in>set R. \<exists>seg. plain seg \<and> change_text c = RESET_STYLE @ seg"
    and "sorted_wrt (\<lambda>c d. span_end c \<le> change_index d) R"
  shows "sorted_wrt (\<lambda>c d. span_end c \<le> change_index d) (erase_rest sO sT line R)"
proof (cases R rule: rev_cases)
  case Nil
  then show ?thesis by (simp add: erase_rest_def)
next
  case (snoc R' c)
  with assms show ?thesis
    by (auto simp: erase_rest_def sorted_wrt_append)
qed

lemma getChanges_spans_plain:
  assumes pB: "plain B"
  shows "sorted_wrt (\<lambda>c d. span_end c \<le> change_index d) (getChanges A B line)"
proof -
  let ?st = "scan_columns A B line (length (stripped_of B))"
  obtain chs buf where st: "?st = (chs, buf)" by (cases ?st) auto
  have st': "foldl (scan_step (stripped_of A) B (codeMap_of A) [] Map.empty line) ([], None) [0..<length B]
      = (chs, buf)"
    using st pB by (simp add: scan_columns_def stripped_of_plain codeArray_of_plain codeMap_of_plain)
  note inv = scan_span_inv[OF pB le_refl st']
  let ?R = "close_end B [] Map.empty (chs, buf)"
  have R: "(\<forall>c\<in>set ?R. \<exists>seg. plain seg \<and> change_text c = RESET_STYLE @ seg) \<and>
      sorted_wrt (\<lambda>c d. span_end c \<le> change_index d) ?R"
  proof (cases buf)
    case None
    with inv show ?thesis by (auto simp: close_end_def)
  next
    case (Some b)
    have "plain (take (length B - change_index b) (drop (change_index b) B))"
      using pB by (simp add: plain_take plain_drop)
    with Some inv show ?thesis
      by (auto simp: close_end_def push_useful_def sorted_wrt_append)
  qed
  have "sorted_wrt (\<lambda>c d. span_end c \<le> change_index d)
          (erase_rest (stripped_of A) B line ?R)"
    using R by (intro erase_rest_spans) auto
  then show ?thesis
    using st pB
    by (simp add: getChanges_def stripped_of_plain codeArray_of_plain codeMap_of_plain)
qed

section \<open>Lemmas on styled strings\<close>
















lemma text_of_simps [simp]:
  "text_of [] = []" "text_of (t # ts) = token_text t @ text_of ts"
  "text_of (ts @ us) = text_of ts @ text_of us"
  by (simp_all add: text_of_def)

lemma visible_simps [simp]:
  "visible [] = []" "visible (t # ts) = token_glyph t @ visible ts"
  "visible (ts @ us) = visible ts @ visible us"
  by (simp_all add: visible_def)

lemma styles_simps [simp]:
  "styles [] = []" "styles (Glyph c # ts) = styles ts" "styles (Style s # ts) = s # styles ts"
  by (simp_all add: styles_def)































































section \<open>Lemmas on the thread and the caller\<close>

lemma run_append: "run c (xs @ ys) = run (run c xs) ys"
  by (simp add: run_def)

lemma run_others:
  "list_all (other_message (call_uuid c)) evs \<Longrightarrow> run c evs = c"
proof (induction evs)
  case Nil
  then show ?case by (simp add: run_def)
next
  case (Cons ev evs)
  then show ?case
    by (cases ev) (simp_all add: run_def other_message_def)
qed

lemma handle_settled:
  "promise c \<noteq> Pending \<Longrightarrow> timeoutTimer c = None \<Longrightarrow>
   promise (handle c ev) = promise c \<and> timeoutTimer (handle c ev) = None \<and>
   lastError (handle c ev) = lastError c"
  by (cases ev) (simp_all add: resolve_def reject_def)

lemma run_settled:
  "promise c \<noteq> Pending \<Longrightarrow> timeoutTimer c = None \<Longrightarrow>
   promise (run c evs) = promise c \<and> timeoutTimer (run c evs) = None \<and>
   lastError (run c evs) = lastError c"
proof (induction evs arbitrary: c)
  case Nil
  then show ?case by (simp add: run_def)
next
  case (Cons ev evs)
  from handle_settled[OF Cons.prems, of ev] Cons.prems
  have "promise (handle c ev) \<noteq> Pending" "timeoutTimer (handle c ev) = None" by simp_all
  from Cons.IH[OF this] handle_settled[OF Cons.prems, of ev] show ?case
    by (simp add: run_def)
qed

lemma handle_promise_settled:
  "promise c \<noteq> Pending \<Longrightarrow> promise (handle c ev) = promise c"
  by (cases ev) (simp_all add: resolve_def reject_def split: option.splits)

lemma run_promise_settled:
  "promise c \<noteq> Pending \<Longrightarrow> promise (run c evs) = promise c"
proof (induction evs arbitrary: c)
  case Nil
  then show ?case by (simp add: run_def)
next
  case (Cons ev evs)
  from handle_promise_settled[OF Cons.prems, of ev] Cons.prems
  have "promise (handle c ev) \<noteq> Pending" by simp
  from Cons.IH[OF this] handle_promise_settled[OF Cons.prems, of ev] show ?case
    by (simp add: run_def)
qed

lemma nextRender_thread_write [simp]: "nextRender (thread_write e t s) = nextRender s"
  by (simp add: thread_write_def stdout_write_def)

lemma nextRender_moveCursorTo [simp]: "nextRender (moveCursorTo e l i s) = nextRender s"
  by (simp add: moveCursorTo_def Let_def)

lemma nextRender_write_change [simp]: "nextRender (write_change e s c) = nextRender s"
  by (simp add: write_change_def Let_def)

lemma nextRender_write_changes [simp]: "nextRender (foldl (write_change e) s cs) = nextRender s"
  by (induction cs arbitrary: s) simp_all

lemma nextRender_render [simp]: "nextRender (render e s) = nextRender s"
  by (simp add: render_def Let_def stdout_write_def)

lemma nextRender_startTimer [simp]: "nextRender (startTimer s) = nextRender s"
  by (simp add: startTimer_def)

lemma render_inactive: "\<not> active s \<Longrightarrow> render e s = s"
  by (simp add: render_def)

lemma renderInterval_idle: "\<not> renderInterval s \<Longrightarrow> s\<lparr>renderInterval := False\<rparr> = s"
  by (cases s) simp

lemma stopTimer_inactive:
  "stopTimer e (s\<lparr>active := False\<rparr>) = s\<lparr>active := False, renderInterval := False\<rparr>"
proof (cases "renderInterval s")
  case True
  then show ?thesis by (simp add: stopTimer_def render_inactive)
next
  case False
  then have "stopTimer e (s\<lparr>active := False\<rparr>) = s\<lparr>active := False\<rparr>"
    by (simp add: stopTimer_def)
  also have "\<dots> = (s\<lparr>active := False\<rparr>)\<lparr>renderInterval := False\<rparr>"
    using False by (intro renderInterval_idle[symmetric]) simp
  finally show ?thesis .
qed

lemma stop_commit_active: "active s \<Longrightarrow> stop e True s = committed e s"
proof -
  assume a: "active s"
  have r: "render e (s\<lparr>active := False, renderInterval := False\<rparr>)
      = s\<lparr>active := False, renderInterval := False\<rparr>"
    by (simp add: render_inactive)
  have p: "previousRender (s\<lparr>active := False, renderInterval := False\<rparr>) = previousRender s"
    by simp
  show ?thesis
    unfolding stop_def committed_def stopTimer_inactive Let_def r p
    using a by simp
qed

lemma moveCursorTo_pending:
  "moveCursorTo e l i t = (moveCursorTo e l i (t\<lparr>nextRender := Z\<rparr>))\<lparr>nextRender := nextRender t\<rparr>"
proof -
  consider "l < cursorLine t" | "cursorLine t < l" | "l = cursorLine t"
    by linarith
  then show ?thesis
  proof cases
    case 1
    then show ?thesis
      by (simp add: moveCursorTo_def Let_def thread_write_def stdout_write_def)
  next
    case 2
    then show ?thesis
      by (simp add: moveCursorTo_def Let_def thread_write_def stdout_write_def)
  next
    case 3
    then show ?thesis
      by (simp add: moveCursorTo_def Let_def thread_write_def stdout_write_def)
  qed
qed

lemma committed_pending: "committed e s = committed e (s\<lparr>nextRender := []\<rparr>)"
proof -
  let ?t = "s\<lparr>active := False, renderInterval := False\<rparr>"
  let ?m0 = "moveCursorTo e (length (previousRender s)) 0 (?t\<lparr>nextRender := []\<rparr>)"
  have m: "moveCursorTo e (length (previousRender s)) 0 ?t = ?m0\<lparr>nextRender := nextRender s\<rparr>"
    using moveCursorTo_pending[of e "length (previousRender s)" 0 ?t "[]"] by simp
  have t: "(s\<lparr>nextRender := []\<rparr>)\<lparr>active := False, renderInterval := False\<rparr> = ?t\<lparr>nextRender := []\<rparr>"
    by simp
  show ?thesis
    unfolding committed_def t m
    by (cases "wasRaw ?m0") (simp_all add: Let_def thread_write_def stdout_write_def)
qed

lemma stop_commit_no_render:
  "stop e True (s\<lparr>active := True, nextRender := X\<rparr>) = stop e True (s\<lparr>active := True, nextRender := Y\<rparr>)"
proof -
  have "stop e True (s\<lparr>active := True, nextRender := Z\<rparr>) = committed e (s\<lparr>active := True, nextRender := []\<rparr>)" for Z
    using stop_commit_active[of "s\<lparr>active := True, nextRender := Z\<rparr>" e]
      committed_pending[of e "s\<lparr>active := True, nextRender := Z\<rparr>"]
    by simp
  then show ?thesis by simp
qed

lemma lineChanges_line: "\<forall>c\<in>set (lineChanges p n k). change_line c = k"
  using getChanges_line_index by (auto simp: lineChanges_def Let_def)

lemma concat_lines_sorted:
  "sorted (map change_line (concat (map (lineChanges p n) [0..<m])))
   \<and> (\<forall>c\<in>set (concat (map (lineChanges p n) [0..<m])). change_line c < m)"
proof (induction m)
  case 0
  then show ?case by simp
next
  case (Suc m)
  have "sorted (map change_line (lineChanges p n m))"
    using lineChanges_line[of p n m] by (induction "lineChanges p n m") (auto simp: sorted_wrt_iff_nth_less)
  with Suc lineChanges_line[of p n m] show ?case
    by (auto simp: sorted_append intro: less_SucI less_imp_le)
qed

lemma erase_trailing_line:
  "map change_line (erase_trailing p n cs) =
     (if length n < length p \<and> cs = [] then [0] else map change_line cs)"
  by (cases cs rule: rev_cases) (auto simp: erase_trailing_def)

lemma render_changes_sorted: "sorted (map change_line (render_changes p n))"
  using concat_lines_sorted[of p n "length n"]
  by (simp add: render_changes_def erase_trailing_line)

section \<open>The claims\<close>


text \<open>
  A second way the round trip fails, left out of the amended claim: for a shorter target the
  erase marker is appended to the last change wherever that change ends, so from \<open>xbcdef\<close>
  to \<open>abc\<close> the row is cleared after \<open>a\<close>.
\<close>

lemma roundtrip_erase_slip:
  "apply_changes (stripAnsi ''xbcdef'') (getChanges ''xbcdef'' ''abc'' 0) = ''a''"
  by code_simp



text \<open>
  C2 says that an APPEND command extends the next-frame list while UPDATE replaces it. The
  dispatcher calls \<open>update\<close> for both commands: after APPEND, as after UPDATE, the next-frame
  list is the normalized new lines alone, and the lines queued before are lost, as for \<open>a\<close>
  followed by an APPEND of \<open>b\<close>.
\<close>

theorem append_replaces:
  "nextRender (fst (on_message e worker \<lparr>cmd = APPEND text, msg_uuid = u\<rparr>))
     = processTextToLineObjects text
   \<and> nextRender (fst (on_message e worker \<lparr>cmd = UPDATE text, msg_uuid = u\<rparr>))
     = processTextToLineObjects text
   \<and> nextRender (handle_all example_env (new_thread example_env cyan False)
        [START None, UPDATE (CString ''a''), APPEND (CString ''b'')])
     = [\<lparr>line_text = ''b'', line_indent = 0, line_force = False\<rparr>]"
proof (intro conjI)
  show "nextRender (fst (on_message e worker \<lparr>cmd = APPEND text, msg_uuid = u\<rparr>))
     = processTextToLineObjects text"
    by (simp add: on_message_def update_def)
  show "nextRender (fst (on_message e worker \<lparr>cmd = UPDATE text, msg_uuid = u\<rparr>))
     = processTextToLineObjects text"
    by (simp add: on_message_def update_def)
  show "nextRender (handle_all example_env (new_thread example_env cyan False)
        [START None, UPDATE (CString ''a''), APPEND (CString ''b'')])
     = [\<lparr>line_text = ''b'', line_indent = 0, line_force = False\<rparr>]"
    by code_simp
qed

text \<open>
  C3 says that \<open>stop(true)\<close> on an active session renders the pending next frame once more.
  \<open>stop\<close> clears \<open>active\<close> before it calls \<open>render\<close>, which then returns at once: the result
  of \<open>stop(true)\<close> does not depend on the pending lines at all. After an update with a forced
  row, a render writes that row again, whereas STOP with commit writes a line feed and shows
  the cursor.
\<close>

theorem stop_commit_skips_render:
  "stop e True (s\<lparr>active := True, nextRender := X\<rparr>) = stop e True (s\<lparr>active := True, nextRender := Y\<rparr>)
   \<and> stdout (handle_all example_env (new_thread example_env cyan False)
        [START None,
         UPDATE (CLine \<lparr>in_text = Some ''Hello'', in_indent = None, in_force = Some True\<rparr>),
         STOP (Some True)])
     = [cursorHide, CHR 0x0D # ERASE_LINE_END, ''Hello'' @ ERASE_LINE_END, [CHR 0x0A], cursorShow]
   \<and> stdout (handle_all example_env (new_thread example_env cyan False)
        [START None,
         UPDATE (CLine \<lparr>in_text = Some ''Hello'', in_indent = None, in_force = Some True\<rparr>),
         RENDER False])
     = [cursorHide, CHR 0x0D # ERASE_LINE_END, ''Hello'' @ ERASE_LINE_END, [CHR 0x0D],
        ''Hello'' @ ERASE_LINE_END]"
proof (intro conjI)
  show "stop e True (s\<lparr>active := True, nextRender := X\<rparr>) = stop e True (s\<lparr>active := True, nextRender := Y\<rparr>)"
    by (rule stop_commit_no_render)
  show "stdout (handle_all example_env (new_thread example_env cyan False)
        [START None,
         UPDATE (CLine \<lparr>in_text = Some ''Hello'', in_indent = None, in_force = Some True\<rparr>),
         STOP (Some True)])
     = [cursorHide, CHR 0x0D # ERASE_LINE_END, ''Hello'' @ ERASE_LINE_END, [CHR 0x0A], cursorShow]"
    by code_simp
  show "stdout (handle_all example_env (new_thread example_env cyan False)
        [START None,
         UPDATE (CLine \<lparr>in_text = Some ''Hello'', in_indent = None, in_force = Some True\<rparr>),
         RENDER False])
     = [cursorHide, CHR 0x0D # ERASE_LINE_END, ''Hello'' @ ERASE_LINE_END, [CHR 0x0D],
        ''Hello'' @ ERASE_LINE_END]"
    by code_simp
qed

text \<open>
  C4 says that \<open>getRenderQueue()\<close> returns the next-frame list of the engine when the
  worker answers in time. The worker answers RENDER_QUEUE with the status \<open>renderQueue\<close> and
  the list as data, leaving its state as it was; the caller expects the status \<open>rendered\<close>,
  so it returns the empty list whatever the engine holds.
\<close>

theorem getRenderQueue_empty:
  "getRenderQueue e worker uid err = Returns (Some [])
   \<and> on_message e worker \<lparr>cmd = RENDER_QUEUE, msg_uuid = uid\<rparr>
       = (worker, Some \<lparr>status = ''renderQueue'', data = Some (nextRender worker), uuid = uid\<rparr>)"
  by (simp add: getRenderQueue_def answered_def on_message_def getLines_def run_def send_def
      resolve_def getRenderQueue_awaited_def)

text \<open>
  C5: when the stripped target is strictly shorter than the stripped original (the two
  strings that the algorithm strips and compares), \<open>getChanges\<close> returns changes, and the
  text of the last one ends with the erase-to-end-of-line marker; from \<open>abcdef\<close> to \<open>abc\<close>
  on line 0 it returns the one change at column 3 whose text is the marker.
\<close>

theorem shrink_erases:
  "(length (stripped_of B) < length (stripped_of A) \<longrightarrow>
      getChanges A B line \<noteq> [] \<and>
      ends_with (change_text (last (getChanges A B line))) ERASE_LINE_END)
   \<and> getChanges ''abcdef'' ''abc'' 0
       = [\<lparr>change_line = 0, change_index = 3, change_text = ERASE_LINE_END\<rparr>]"
proof (intro conjI impI)
  assume "length (stripped_of B) < length (stripped_of A)"
  from getChanges_shrink[OF this]
  show "getChanges A B line \<noteq> []"
    and "ends_with (change_text (last (getChanges A B line))) ERASE_LINE_END"
    by simp_all
next
  show "getChanges ''abcdef'' ''abc'' 0
       = [\<lparr>change_line = 0, change_index = 3, change_text = ERASE_LINE_END\<rparr>]"
    by code_simp
qed

theorem shrink_erases_witness:
  "length (stripped_of ''ab'') < length (stripped_of ''abcdef'')
   \<and> getChanges ''abcdef'' ''ab'' 7 \<noteq> []
   \<and> ends_with (change_text (last (getChanges ''abcdef'' ''ab'' 7))) ERASE_LINE_END"
proof -
  have h: "length (stripped_of ''ab'') < length (stripped_of ''abcdef'')"
    by code_simp
  with shrink_erases[of "''ab''" "''abcdef''" 7] show ?thesis
    by blast
qed

text \<open>
  C6, as stated: from \<open>Hello world\<close> to \<open>Hello there\<close> the one change has the text
  \<open>there\<close> and nothing else. It has not.
\<close>

theorem partial_edit_counterexample:
  "getChanges ''Hello world'' ''Hello there'' 0
     \<noteq> [\<lparr>change_line = 0, change_index = 6, change_text = ''there''\<rparr>]"
  by code_simp

text \<open>
  C6, amended: \<open>getChanges("Hello world", "Hello there", 0)\<close> returns exactly one change,
  on line 0 at column 6, whose text is the reset-style sequence \<open>RESET_STYLE\<close> followed by
  \<open>there\<close>, with no end-of-line erase.
\<close>

theorem partial_edit_reset:
  "getChanges ''Hello world'' ''Hello there'' 0
     = [\<lparr>change_line = 0, change_index = 6, change_text = RESET_STYLE @ ''there''\<rparr>]"
  by code_simp

text \<open>
  C7: the change algorithm returns no change for two equal strings, whatever the line; so it
  does for two empty strings and for \<open>abc\<close> against itself.
\<close>

theorem getChanges_same:
  "getChanges s s line = [] \<and> getChanges [] [] line = [] \<and> getChanges ''abc'' ''abc'' line = []"
  by (simp add: getChanges_def)

text \<open>
  C8 says that every occurrence of the spinner placeholder in a line is replaced before
  wrapping, in the build of both frames. \<open>String.replace\<close> with a string pattern replaces
  the first occurrence only: of the two placeholders of a line the second reaches
  \<open>wrap-ansi\<close> as it is, in the rows of the next frame. After START and an UPDATE with
  three placeholders in a line, the row written to the terminal holds two of them; the
  previous frame keeps that row, and its build at the next render replaces one more and
  leaves the third.
\<close>

theorem spinner_first_only:
  "rows_of e glyph \<lparr>line_text = SPINNER @ '' a '' @ SPINNER, line_indent = n, line_force = f\<rparr>
     = split_nl (indentString e
         (wrapAnsi e (substitution SPINNER [] ('' a '' @ SPINNER) glyph @ '' a '' @ SPINNER) (width e)) n)
   \<and> nextLines_of example_env ((new_thread example_env cyan False)
        \<lparr>nextRender := [\<lparr>line_text = ''_*_ a _*_'', line_indent = 0, line_force = False\<rparr>]\<rparr>)
     = [\<lparr>row_text = cyan [CHR 0x5C] @ '' a _*_'', row_force = False\<rparr>]
   \<and> stdout (handle_all example_env (new_thread example_env cyan False)
        [START None, UPDATE (CString ''_*_ a _*_ b _*_'')])
     = [cursorHide, CHR 0x0D # ERASE_LINE_END, cyan [CHR 0x5C] @ '' a _*_ b _*_'', ESC # ''[10C'']
   \<and> previousLines_of example_env (handle_all example_env (new_thread example_env cyan False)
        [START None, UPDATE (CString ''_*_ a _*_ b _*_'')])
     = [cyan [CHR 0x5C] @ '' a '' @ cyan [CHR 0x5C] @ '' b _*_'']"
proof (intro conjI)
  show "rows_of e glyph \<lparr>line_text = SPINNER @ '' a '' @ SPINNER, line_indent = n, line_force = f\<rparr>
     = split_nl (indentString e
         (wrapAnsi e (substitution SPINNER [] ('' a '' @ SPINNER) glyph @ '' a '' @ SPINNER) (width e)) n)"
    by (simp add: rows_of_def replace_def indexOf_def SPINNER_def)
  show "nextLines_of example_env ((new_thread example_env cyan False)
        \<lparr>nextRender := [\<lparr>line_text = ''_*_ a _*_'', line_indent = 0, line_force = False\<rparr>]\<rparr>)
     = [\<lparr>row_text = cyan [CHR 0x5C] @ '' a _*_'', row_force = False\<rparr>]"
    by code_simp
  show "stdout (handle_all example_env (new_thread example_env cyan False)
        [START None, UPDATE (CString ''_*_ a _*_ b _*_'')])
     = [cursorHide, CHR 0x0D # ERASE_LINE_END, cyan [CHR 0x5C] @ '' a _*_ b _*_'', ESC # ''[10C'']"
    by code_simp
  show "previousLines_of example_env (handle_all example_env (new_thread example_env cyan False)
        [START None, UPDATE (CString ''_*_ a _*_ b _*_'')])
     = [cyan [CHR 0x5C] @ '' a '' @ cyan [CHR 0x5C] @ '' b _*_'']"
    by code_simp
qed

text \<open>
  C9, as stated, has the column spans that the changes of one row write never overlap. When
  a change is closed it is extended with the characters up to the next code of the target:
  with a code at the end of the target, the change at column 0 writes the eight columns of
  the row, and the change at column 5 writes three of them again.
\<close>

theorem spans_overlap_counterexample:
  "\<not> sorted_wrt (\<lambda>c d. span_end c \<le> change_index d)
       (getChanges (''xbcdeYgh'' @ ESC # ''[0m'') (''abcdefgh'' @ ESC # ''[0m'') 0)"
  by code_simp

text \<open>
  C9, amended: the changes of one render cycle are in ascending order of line; the changes
  of \<open>getChanges(original, target, line)\<close> all carry \<open>line\<close>, their columns increase strictly
  and are at most the length of the stripped target; and when the target is unstyled (no
  escape character, CSI or bell) the column spans they write do not overlap.
\<close>

theorem changes_ordered:
  "sorted (map change_line (render_changes previousLines nextLines))
   \<and> (\<forall>c\<in>set (getChanges original target line).
         change_line c = line \<and> change_index c \<le> length (stripped_of target))
   \<and> sorted_wrt (<) (map change_index (getChanges original target line))
   \<and> (plain target \<longrightarrow>
        sorted_wrt (\<lambda>c d. span_end c \<le> change_index d) (getChanges original target line))"
  using render_changes_sorted[of previousLines nextLines]
    getChanges_line_index[of original target line]
    getChanges_spans_plain[of target original line]
  by blast

theorem changes_ordered_witness:
  "plain ''a-c-e-ghij''
   \<and> sorted_wrt (\<lambda>c d. span_end c \<le> change_index d) (getChanges ''abcdefgh'' ''a-c-e-ghij'' 3)
   \<and> map change_index (getChanges ''abcdefgh'' ''a-c-e-ghij'' 3) = [1, 8]"
proof -
  have p: "plain ''a-c-e-ghij''"
    by code_simp
  have i: "map change_index (getChanges ''abcdefgh'' ''a-c-e-ghij'' 3) = [1, 8]"
    by code_simp
  from changes_ordered[of "[]" "[]" "''abcdefgh''" "''a-c-e-ghij''" 3] p i show ?thesis
    by simp
qed

text \<open>
  C10 says that a call to which the engine never responds resolves, without throwing, when
  the timeout expires. When the transmission of the command fails, as it does on a closed
  channel, the callback of \<open>worker.send\<close> rejects the promise of \<open>send\<close>: the calling
  method throws, whatever comes later. With no response and the timer expiring afterwards,
  the call stays rejected, and \<open>lastError\<close> is set to the message of the timeout.
\<close>

theorem send_failure_throws:
  "promise (run (send uid timeout err) (SendFailed # later)) = Rejected
   \<and> awaited expected (promise (run (send uid timeout err) (SendFailed # later))) = Throws
   \<and> getRenderQueue_awaited (promise (run (send uid timeout err) (SendFailed # later))) = Throws
   \<and> promise (run (send ''u1'' None None) [SendFailed, TimerExpired]) = Rejected
   \<and> lastError (run (send ''u1'' None None) [SendFailed, TimerExpired])
       = Some ''Communication timeout''"
proof -
  let ?c = "handle (send uid timeout err) SendFailed"
  have c: "promise ?c = Rejected" by (simp add: send_def reject_def)
  have "run (send uid timeout err) (SendFailed # later) = run ?c later" by (simp add: run_def)
  with run_promise_settled[of ?c later] c
  have p: "promise (run (send uid timeout err) (SendFailed # later)) = Rejected" by simp
  have q: "promise (run (send ''u1'' None None) [SendFailed, TimerExpired]) = Rejected"
    by code_simp
  have l: "lastError (run (send ''u1'' None None) [SendFailed, TimerExpired])
       = Some ''Communication timeout''"
    by code_simp
  from p q l show ?thesis by (simp add: awaited_def getRenderQueue_awaited_def)
qed

text \<open>
  What the claim says of the timeout holds when the transmission does not fail. While
  nothing but messages for other calls arrive, the expiry of the timeout, set by default to
  10000 ms, resolves the call with no response: \<open>lastError\<close> is \<open>Communication timeout\<close>,
  the calling method returns false, or the empty list for \<open>getRenderQueue\<close>, and nothing
  that comes later changes it. When the response with the identifier of the call arrives
  first, it resolves the call, the timeout is cancelled and \<open>lastError\<close> is left as it was.
\<close>

lemma send_timeout:
  "(list_all (other_message uid) evs \<longrightarrow>
      (let c = run (send uid timeout err) (evs @ [TimerExpired] @ later)
       in promise c = Resolved None \<and> lastError c = Some ''Communication timeout''
          \<and> awaited expected (promise c) = Returns False
          \<and> getRenderQueue_awaited (promise c) = Returns (Some [])))
   \<and> (list_all (other_message uid) evs \<and> uuid m = uid \<longrightarrow>
      (let c = run (send uid timeout err) (evs @ [Message m] @ later)
       in promise c = Resolved (Some m) \<and> timeoutTimer c = None \<and> lastError c = err))
   \<and> timeoutTimer (send uid None err) = Some 10000"
proof (intro conjI impI)
  assume o: "list_all (other_message uid) evs"
  have u: "call_uuid (send uid timeout err) = uid" by (simp add: send_def)
  have r: "run (send uid timeout err) evs = send uid timeout err"
    using run_others[of "send uid timeout err" evs] o u by simp
  let ?c = "handle (send uid timeout err) TimerExpired"
  have c: "promise ?c = Resolved None" "timeoutTimer ?c = None"
    "lastError ?c = Some ''Communication timeout''"
    by (simp_all add: send_def resolve_def)
  have "run (send uid timeout err) (evs @ [TimerExpired] @ later) = run ?c later"
    by (simp add: run_append r) (simp add: run_def)
  with run_settled[of ?c later] c
  show "let c = run (send uid timeout err) (evs @ [TimerExpired] @ later)
       in promise c = Resolved None \<and> lastError c = Some ''Communication timeout''
          \<and> awaited expected (promise c) = Returns False
          \<and> getRenderQueue_awaited (promise c) = Returns (Some [])"
    by (simp add: awaited_def getRenderQueue_awaited_def)
next
  assume "list_all (other_message uid) evs \<and> uuid m = uid"
  then have o: "list_all (other_message uid) evs" and m: "uuid m = uid" by simp_all
  have u: "call_uuid (send uid timeout err) = uid" by (simp add: send_def)
  have r: "run (send uid timeout err) evs = send uid timeout err"
    using run_others[of "send uid timeout err" evs] o u by simp
  let ?c = "handle (send uid timeout err) (Message m)"
  have c: "promise ?c = Resolved (Some m)" "timeoutTimer ?c = None" "lastError ?c = err"
    using m by (simp_all add: send_def resolve_def)
  have "run (send uid timeout err) (evs @ [Message m] @ later) = run ?c later"
    by (simp add: run_append r) (simp add: run_def)
  with run_settled[of ?c later] c
  show "let c = run (send uid timeout err) (evs @ [Message m] @ later)
       in promise c = Resolved (Some m) \<and> timeoutTimer c = None \<and> lastError c = err"
    by simp
next
  show "timeoutTimer (send uid None err) = Some 10000" by (simp add: send_def)
qed

lemma send_timeout_example:
  "list_all (other_message ''u1'') [Message \<lparr>status = ''updated'', data = None, uuid = ''u0''\<rparr>]
   \<and> promise (run (send ''u1'' None None)
        ([Message \<lparr>status = ''updated'', data = None, uuid = ''u0''\<rparr>] @ [TimerExpired]
          @ [Message \<lparr>status = ''started'', data = None, uuid = ''u1''\<rparr>])) = Resolved None
   \<and> lastError (run (send ''u1'' None None)
        ([Message \<lparr>status = ''updated'', data = None, uuid = ''u0''\<rparr>] @ [TimerExpired]
          @ [Message \<lparr>status = ''started'', data = None, uuid = ''u1''\<rparr>]))
       = Some ''Communication timeout''
   \<and> promise (run (send ''u1'' None None)
        ([Message \<lparr>status = ''updated'', data = None, uuid = ''u0''\<rparr>]
          @ [Message \<lparr>status = ''started'', data = None, uuid = ''u1''\<rparr>] @ [TimerExpired]))
       = Resolved (Some \<lparr>status = ''started'', data = None, uuid = ''u1''\<rparr>)"
proof -
  have o: "list_all (other_message ''u1'') [Message \<lparr>status = ''updated'', data = None, uuid = ''u0''\<rparr>]"
    by (simp add: other_message_def)
  have u: "uuid \<lparr>status = ''started'', data = None, uuid = ''u1''\<rparr> = ''u1''"
    by simp
  from send_timeout[of "''u1''" "[Message \<lparr>status = ''updated'', data = None, uuid = ''u0''\<rparr>]"
      None None "[Message \<lparr>status = ''started'', data = None, uuid = ''u1''\<rparr>]" "''started''"
      "\<lparr>status = ''started'', data = None, uuid = ''u1''\<rparr>"] o
  have a: "promise (run (send ''u1'' None None)
        ([Message \<lparr>status = ''updated'', data = None, uuid = ''u0''\<rparr>] @ [TimerExpired]
          @ [Message \<lparr>status = ''started'', data = None, uuid = ''u1''\<rparr>])) = Resolved None"
    and b: "lastError (run (send ''u1'' None None)
        ([Message \<lparr>status = ''updated'', data = None, uuid = ''u0''\<rparr>] @ [TimerExpired]
          @ [Message \<lparr>status = ''started'', data = None, uuid = ''u1''\<rparr>]))
       = Some ''Communication timeout''"
    by (simp_all add: Let_def)
  from send_timeout[of "''u1''" "[Message \<lparr>status = ''updated'', data = None, uuid = ''u0''\<rparr>]"
      None None "[TimerExpired]" "''started''"
      "\<lparr>status = ''started'', data = None, uuid = ''u1''\<rparr>"] o u
  have c: "promise (run (send ''u1'' None None)
        ([Message \<lparr>status = ''updated'', data = None, uuid = ''u0''\<rparr>]
          @ [Message \<lparr>status = ''started'', data = None, uuid = ''u1''\<rparr>] @ [TimerExpired]))
       = Resolved (Some \<lparr>status = ''started'', data = None, uuid = ''u1''\<rparr>)"
    by (simp add: Let_def)
  from o a b c show ?thesis by blast
qed

end
